theory Spec2Isabelle
  imports Main
begin

section \<open>The contact aggregation function \<open>unique_contact\<close>\<close>

text \<open>
  A shallow embedding of \<open>UniqueContactFunction.Run\<close>
  (\<open>internal/provider/unique_contact_function.go\<close>) and of \<open>stripSpaces\<close>
  (\<open>internal/provider/contact_resource.go\<close>). Go strings are byte sequences and are
  modelled as \<open>string\<close> (a list of 8-bit characters).
\<close>

subsection \<open>Library functions of Go used by the code\<close>

text \<open>
  \<open>unicode.IsSpace\<close>: the white space characters of Go are the six ASCII characters
  tab, line feed, vertical tab, form feed, carriage return and space, and the code points
  U+0085, U+00A0, U+1680, U+2000 to U+200A, U+2028, U+2029, U+202F, U+205F and U+3000.
  \<open>spaceRunes\<close> lists their UTF-8 encodings. Every multi-byte encoding starts with a
  byte that is never a continuation byte, so Go's decoder always starts a character at
  such a byte and reads a white space character there exactly when the bytes that follow
  complete one of these encodings.
\<close>

definition asciiSpace :: "char list" where
  "asciiSpace = [CHR 0x09, CHR 0x0A, CHR 0x0B, CHR 0x0C, CHR 0x0D, CHR 0x20]"

definition unicodeSpace :: "string list" where
  "unicodeSpace =
    [[CHR 0xC2, CHR 0x85], [CHR 0xC2, CHR 0xA0],
     [CHR 0xE1, CHR 0x9A, CHR 0x80],
     [CHR 0xE2, CHR 0x80, CHR 0x80], [CHR 0xE2, CHR 0x80, CHR 0x81],
     [CHR 0xE2, CHR 0x80, CHR 0x82], [CHR 0xE2, CHR 0x80, CHR 0x83],
     [CHR 0xE2, CHR 0x80, CHR 0x84], [CHR 0xE2, CHR 0x80, CHR 0x85],
     [CHR 0xE2, CHR 0x80, CHR 0x86], [CHR 0xE2, CHR 0x80, CHR 0x87],
     [CHR 0xE2, CHR 0x80, CHR 0x88], [CHR 0xE2, CHR 0x80, CHR 0x89],
     [CHR 0xE2, CHR 0x80, CHR 0x8A],
     [CHR 0xE2, CHR 0x80, CHR 0xA8], [CHR 0xE2, CHR 0x80, CHR 0xA9],
     [CHR 0xE2, CHR 0x80, CHR 0xAF],
     [CHR 0xE2, CHR 0x81, CHR 0x9F],
     [CHR 0xE3, CHR 0x80, CHR 0x80]]"

definition spaceRunes :: "string list" where
  "spaceRunes = map (\<lambda>c. [c]) asciiSpace @ unicodeSpace"

text \<open>The number of bytes of the white space character at the head of a string, 0 when
  the string does not start with one.\<close>

definition spaceWidth :: "string \<Rightarrow> nat" where
  "spaceWidth s =
    (case find (\<lambda>r. take (length r) s = r) spaceRunes of
       None \<Rightarrow> 0
     | Some r \<Rightarrow> length r)"

text \<open>
  \<open>strings.Fields\<close>: the loop of \<open>strings.FieldsFunc\<close> with \<open>unicode.IsSpace\<close>. The first
  argument is the field being read (\<open>s[start:end]\<close>, empty when \<open>start < 0\<close>), the second
  the rest of the input.
\<close>

fun FieldsFrom :: "string \<Rightarrow> string \<Rightarrow> string list" where
  "FieldsFrom cur [] = (if cur = [] then [] else [cur])"
| "FieldsFrom cur (c # cs) =
    (let w = spaceWidth (c # cs) in
     if 0 < w then (if cur = [] then [] else [cur]) @ FieldsFrom [] (drop (w - 1) cs)
     else FieldsFrom (cur @ [c]) cs)"

definition Fields :: "string \<Rightarrow> string list" where
  "Fields s = FieldsFrom [] s"

text \<open>\<open>strings.Join\<close>.\<close>

fun Join :: "string list \<Rightarrow> string \<Rightarrow> string" where
  "Join [] sep = []"
| "Join [e] sep = e"
| "Join (e # es) sep = e @ concat (map (\<lambda>s. sep @ s) es)"

text \<open>
  \<open>destinationRegexp.ReplaceAllString(s, "")\<close> with \<open>destinationRegexp = \D\<close>: every
  character that is not one of the ASCII digits is removed. A byte of a multi-byte or
  invalid UTF-8 sequence is never an ASCII digit, so the bytes that remain are the digits.
\<close>

definition isDigit :: "char \<Rightarrow> bool" where
  "isDigit c = (c \<in> set ''0123456789'')"

definition destinationRegexp_ReplaceAllString :: "string \<Rightarrow> string" where
  "destinationRegexp_ReplaceAllString s = filter isDigit s"

subsection \<open>\<open>stripSpaces\<close>\<close>

definition stripSpaces :: "string \<Rightarrow> string" where
  "stripSpaces s = Join (Fields s) '' ''"

subsection \<open>Data\<close>

text \<open>An input row is a Go \<open>map[string]string\<close>; indexing a missing key gives the empty
  string.\<close>

type_synonym row = "string \<rightharpoonup> string"

definition index_map :: "row \<Rightarrow> string \<Rightarrow> string" where
  "index_map v k = (case v k of None \<Rightarrow> [] | Some s \<Rightarrow> s)"

text \<open>\<open>UniqueContactModel\<close>, with the three lists already read by \<open>listToLabels\<close>.\<close>

record UniqueContactModel =
  NameField :: string
  CodeField :: string
  DestinationField :: string
  Labels :: "string list"
  Variables :: "string list"
  GroupByFields :: "string list"

record destination =
  code :: string
  destination :: string

text \<open>The accumulator \<open>contact\<close> of \<open>Run\<close>. Its mutex is left out: the loop is sequential.\<close>

record contact =
  name :: string
  destinations :: "destination list"
  labels :: "string list"
  variables :: "string \<rightharpoonup> string"

text \<open>The object value built for each key of the result, with the attributes \<open>name\<close>,
  \<open>destinations\<close> (the elements handed to \<open>types.SetValueMust\<close>, in the order they were
  appended), \<open>labels\<close> and \<open>variables\<close>.\<close>

record contact_object =
  attr_name :: string
  attr_destinations :: "destination list"
  attr_labels :: "string list"
  attr_variables :: "string \<rightharpoonup> string"

text \<open>The two calls of \<open>tflog.Warn\<close>.\<close>

datatype warning =
  ElementHasEmptyName nat string
| VariableAlreadyExists string

record state =
  seen :: "string \<rightharpoonup> contact"
  warnings :: "warning list"

datatype func_error = FuncError string

subsection \<open>The first loop of \<open>Run\<close>: accumulation\<close>

text \<open>The destination value of a row: \<open>"+"\<close> followed by the digits of the raw value.\<close>

definition normalize :: "string \<Rightarrow> string" where
  "normalize s = ''+'' @ destinationRegexp_ReplaceAllString s"

definition keyFields :: "string list \<Rightarrow> row \<Rightarrow> string list" where
  "keyFields groupByFields v =
     map (index_map v) (filter (\<lambda>k. index_map v k \<noteq> []) groupByFields)"

definition groupKey :: "UniqueContactModel \<Rightarrow> row \<Rightarrow> string \<Rightarrow> string" where
  "groupKey data v nm =
    (let kf = keyFields (GroupByFields data) v in
     if kf \<noteq> [] then Join kf ''-'' else nm)"

definition newContact :: "string \<Rightarrow> contact" where
  "newContact nm = \<lparr>name = nm, destinations = [], labels = [], variables = Map.empty\<rparr>"

definition rowLabels :: "UniqueContactModel \<Rightarrow> row \<Rightarrow> string list" where
  "rowLabels data v = map (index_map v) (Labels data)"

definition rowDestination :: "UniqueContactModel \<Rightarrow> row \<Rightarrow> destination" where
  "rowDestination data v =
    \<lparr>code = index_map v (CodeField data),
     destination = normalize (index_map v (DestinationField data))\<rparr>"

text \<open>The loop over \<open>variableFields\<close>, on the variables of the group and the log.\<close>

fun setVariables ::
  "string list \<Rightarrow> row \<Rightarrow> (string \<rightharpoonup> string) \<times> warning list \<Rightarrow> (string \<rightharpoonup> string) \<times> warning list"
where
  "setVariables [] v (m, w) = (m, w)"
| "setVariables (field # rest) v (m, w) =
    setVariables rest v
      (m(field \<mapsto> index_map v field),
       (if m field \<noteq> None then w @ [VariableAlreadyExists field] else w))"

text \<open>One iteration of \<open>for i, v := range elements\<close>. \<open>cur\<close> is \<open>seen[key]\<close> after the
  entry has been created when it was missing.\<close>

definition process :: "UniqueContactModel \<Rightarrow> nat \<Rightarrow> row \<Rightarrow> state \<Rightarrow> state" where
  "process data i v st =
    (let nm = stripSpaces (index_map v (NameField data)) in
     if nm = [] then st\<lparr>warnings := warnings st @ [ElementHasEmptyName i nm]\<rparr>
     else
       let key = groupKey data v nm;
           cur = (case seen st key of None \<Rightarrow> newContact nm | Some c \<Rightarrow> c);
           c = \<lparr>name = name cur,
                destinations = destinations cur @ [rowDestination data v],
                labels = labels cur @ rowLabels data v,
                variables = variables cur\<rparr>;
           (vars, w) = setVariables (Variables data) v (variables c, warnings st)
       in \<lparr>seen = (seen st)(key \<mapsto> c\<lparr>variables := vars\<rparr>), warnings = w\<rparr>)"

fun loop :: "UniqueContactModel \<Rightarrow> nat \<Rightarrow> row list \<Rightarrow> state \<Rightarrow> state" where
  "loop data i [] st = st"
| "loop data i (v # vs) st = loop data (Suc i) vs (process data i v st)"

subsection \<open>The second loop of \<open>Run\<close>: the result\<close>

fun uniqueLabels :: "string list \<Rightarrow> string list \<Rightarrow> (string \<Rightarrow> bool) \<Rightarrow> string list" where
  "uniqueLabels [] out seenLabels = out"
| "uniqueLabels (label # ls) out seenLabels =
    uniqueLabels ls (if \<not> seenLabels label then out @ [label] else out)
      (seenLabels(label := True))"

fun uniqueDestinations ::
  "destination list \<Rightarrow> destination list \<Rightarrow> (string \<Rightarrow> bool) \<Rightarrow> destination list"
where
  "uniqueDestinations [] out seenDestination = out"
| "uniqueDestinations (dest # ds) out seenDestination =
    uniqueDestinations ds
      (if \<not> seenDestination (destination dest) then out @ [dest] else out)
      (seenDestination(destination dest := True))"

text \<open>The body of \<open>for n, c := range seen\<close>. The variables are copied entry by entry.\<close>

definition contactObject :: "contact \<Rightarrow> contact_object" where
  "contactObject c =
    \<lparr>attr_name = name c,
     attr_destinations = uniqueDestinations (destinations c) [] (\<lambda>_. False),
     attr_labels = uniqueLabels (labels c) [] (\<lambda>_. False),
     attr_variables = variables c\<rparr>"

text \<open>The body of \<open>Run\<close> once its arguments are read: the map \<open>contacts\<close> and the log.
  Each key of \<open>seen\<close> is written once, so the order in which Go visits the keys does
  not matter.\<close>

definition aggregate ::
  "row list \<Rightarrow> UniqueContactModel \<Rightarrow> (string \<rightharpoonup> contact_object) \<times> warning list"
where
  "aggregate elements data =
    (let st = loop data 0 elements \<lparr>seen = Map.empty, warnings = []\<rparr>
     in ((\<lambda>n. map_option contactObject (seen st n)), warnings st))"

text \<open>\<open>Run\<close>. Its argument is the outcome of reading the Terraform arguments
  (\<open>req.Arguments.Get\<close>, \<open>csv.ElementsAs\<close>, \<open>listToLabels\<close>): an error, on which \<open>Run\<close>
  returns at once with that error, or the rows and the mapping.\<close>

definition Run ::
  "func_error + row list \<times> UniqueContactModel \<Rightarrow>
   func_error + (string \<rightharpoonup> contact_object) \<times> warning list"
where
  "Run args =
    (case args of
       Inl err \<Rightarrow> Inl err
     | Inr (elements, data) \<Rightarrow> Inr (aggregate elements data))"

subsection \<open>Notions of the specification\<close>

text \<open>A row is skipped when its name is empty once the white space is stripped.\<close>

definition skipped :: "UniqueContactModel \<Rightarrow> row \<Rightarrow> bool" where
  "skipped data v = (stripSpaces (index_map v (NameField data)) = [])"

text \<open>The key that the loop computes for a row.\<close>

definition rowKey :: "UniqueContactModel \<Rightarrow> row \<Rightarrow> string" where
  "rowKey data v = groupKey data v (stripSpaces (index_map v (NameField data)))"

text \<open>The grouping key in the words of the specification: the values of the group-by
  fields that are not empty, in declared order, joined with \<open>-\<close>; the stripped name when
  no such value was collected.\<close>

definition specKey :: "UniqueContactModel \<Rightarrow> row \<Rightarrow> string" where
  "specKey data v =
    (let vals = filter (\<lambda>s. s \<noteq> []) (map (index_map v) (GroupByFields data)) in
     if vals = [] then stripSpaces (index_map v (NameField data)) else Join vals ''-'')"

text \<open>The group of a key: the rows of the input, in input order, that are not skipped
  and have this key.\<close>

definition groupRows :: "UniqueContactModel \<Rightarrow> string \<Rightarrow> row list \<Rightarrow> row list" where
  "groupRows data k vs = filter (\<lambda>v. \<not> skipped data v \<and> rowKey data v = k) vs"

text \<open>What one row adds to the contact of its group.\<close>

definition mergeRow :: "UniqueContactModel \<Rightarrow> row \<Rightarrow> contact \<Rightarrow> contact" where
  "mergeRow data v cur =
    \<lparr>name = name cur,
     destinations = destinations cur @ [rowDestination data v],
     labels = labels cur @ rowLabels data v,
     variables =
       (\<lambda>f. if f \<in> set (Variables data) then Some (index_map v f) else variables cur f)\<rparr>"

text \<open>The contact accumulated from the rows of one group: none for the empty group.\<close>

fun groupContact :: "UniqueContactModel \<Rightarrow> row list \<Rightarrow> contact option" where
  "groupContact data [] = None"
| "groupContact data (u # us) =
    Some \<lparr>name = stripSpaces (index_map u (NameField data)),
          destinations = map (rowDestination data) (u # us),
          labels = concat (map (rowLabels data) (u # us)),
          variables =
            (\<lambda>f. if f \<in> set (Variables data)
                 then Some (index_map (last (u # us)) f) else None)\<rparr>"

text \<open>A list with every element removed that repeats an earlier one (\<open>firstOccurrences\<close>),
  or that has the same image under \<open>f\<close> as an earlier one (\<open>firstBy\<close>).\<close>

fun firstOccurrences :: "'a list \<Rightarrow> 'a list" where
  "firstOccurrences [] = []"
| "firstOccurrences (x # xs) = x # filter (\<lambda>y. y \<noteq> x) (firstOccurrences xs)"

fun firstBy :: "('a \<Rightarrow> 'b) \<Rightarrow> 'a list \<Rightarrow> 'a list" where
  "firstBy f [] = []"
| "firstBy f (x # xs) = x # filter (\<lambda>y. f y \<noteq> f x) (firstBy f xs)"

subsection \<open>The worked example of the documentation\<close>

text \<open>The rows that \<open>csvdecode\<close> gives for the example of \<open>unique_contact\<close> in the
  documentation, and its mapping.\<close>

definition example_row :: "string \<Rightarrow> string \<Rightarrow> string \<Rightarrow> string \<Rightarrow> string \<Rightarrow> string \<Rightarrow> row" where
  "example_row n c d fl fv bv =
    map_of [(''name'', n), (''code'', c), (''destination'', d),
            (''foo_label'', fl), (''foo_variable'', fv), (''bar_variable'', bv)]"

definition example_csv :: "row list" where
  "example_csv =
    [example_row ''foo1'' ''1'' ''123'' ''local'' ''foo'' ''bar'',
     example_row ''foo1'' ''1'' ''456'' ''local'' ''foo'' ''bar'',
     example_row ''foo1'' ''2'' ''789'' ''other'' ''foo'' ''bar'',
     example_row ''bar1'' ''1'' ''123'' ''local'' ''foo'' ''bar'']"

definition example_mapping :: UniqueContactModel where
  "example_mapping =
    \<lparr>NameField = ''name'', CodeField = ''code'', DestinationField = ''destination'',
     Labels = [''foo_label''], Variables = [''foo_variable'', ''bar_variable''],
     GroupByFields = [''name'', ''foo_variable'']\<rparr>"

subsection \<open>The rows of the unit test\<close>

text \<open>The rows and the mapping of \<open>TestUniqueContactFunction_Known\<close>.\<close>

definition test_row :: "string \<Rightarrow> string \<Rightarrow> string \<Rightarrow> string \<Rightarrow> row" where
  "test_row n c d a =
    map_of [(''name'', n), (''code'', c), (''destination'', d), (''account_id'', a)]"

definition test_csv :: "row list" where
  "test_csv =
    [test_row ''foo1'' ''1'' ''ami-54d2a63b'' ''123'',
     test_row ''foo1'' ''1'' ''ami-54d2a63c'' ''321'',
     test_row ''foo1'' ''2'' ''ami-54d2a63b'' ''123'',
     test_row ''bar1'' ''m3.large'' ''ami-54d2a63b'' ''123'']"

definition test_mapping :: UniqueContactModel where
  "test_mapping =
    \<lparr>NameField = ''name'', CodeField = ''code'', DestinationField = ''destination'',
     Labels = [''code'', ''destination''], Variables = [''name''],
     GroupByFields = [''name'', ''account_id'']\<rparr>"

section \<open>The accumulation loop, group by group\<close>

lemma setVariables_fst:
  "fst (setVariables fs v (m, w)) = (\<lambda>f. if f \<in> set fs then Some (index_map v f) else m f)"
  by (induction fs arbitrary: m w) (auto simp: fun_eq_iff)

lemma process_skipped:
  "skipped data v \<Longrightarrow>
   process data i v st = st\<lparr>warnings := warnings st @ [ElementHasEmptyName i []]\<rparr>"
  by (simp add: process_def skipped_def)

lemma process_seen:
  "\<not> skipped data v \<Longrightarrow>
   seen (process data i v st) =
     (seen st)(rowKey data v \<mapsto>
        mergeRow data v
          (case seen st (rowKey data v) of
             None \<Rightarrow> newContact (stripSpaces (index_map v (NameField data)))
           | Some c \<Rightarrow> c))"
  by (simp add: process_def skipped_def rowKey_def mergeRow_def Let_def split_def
      setVariables_fst cong: if_cong)

lemma loop_append:
  "loop data i (xs @ ys) st = loop data (i + length xs) ys (loop data i xs st)"
  by (induction xs arbitrary: i st) simp_all

lemma loop_snoc:
  "loop data i (xs @ [v]) st = process data (i + length xs) v (loop data i xs st)"
  by (simp add: loop_append)

lemma groupRows_snoc:
  "groupRows data k (xs @ [v]) =
     groupRows data k xs @ (if \<not> skipped data v \<and> rowKey data v = k then [v] else [])"
  by (simp add: groupRows_def)

lemma mergeRow_new:
  "Some (mergeRow data v (newContact (stripSpaces (index_map v (NameField data)))))
     = groupContact data [v]"
  by (simp add: mergeRow_def newContact_def cong: if_cong)

lemma mergeRow_old:
  "groupContact data g = Some c \<Longrightarrow> Some (mergeRow data v c) = groupContact data (g @ [v])"
  by (cases g) (auto simp: mergeRow_def fun_eq_iff)

text \<open>After the loop, the entry of a key is the contact accumulated from its group.\<close>

lemma seen_loop:
  "seen (loop data i vs \<lparr>seen = Map.empty, warnings = w\<rparr>) k
     = groupContact data (groupRows data k vs)"
proof (induction vs arbitrary: k rule: rev_induct)
  case Nil
  show ?case by (simp add: groupRows_def)
next
  case (snoc v vs)
  let ?st = "loop data i vs \<lparr>seen = Map.empty, warnings = w\<rparr>"
  show ?case
  proof (cases "\<not> skipped data v \<and> rowKey data v = k")
    case False
    then show ?thesis
      using snoc.IH [of k]
      by (cases "skipped data v")
         (auto simp: loop_snoc groupRows_snoc process_skipped process_seen)
  next
    case True
    then have ns: "\<not> skipped data v" and key: "rowKey data v = k" by simp_all
    have g: "groupRows data k (vs @ [v]) = groupRows data k vs @ [v]"
      using True by (simp add: groupRows_snoc)
    show ?thesis
    proof (cases "seen ?st k")
      case None
      then have "groupRows data k vs = []"
        using snoc.IH [of k] by (cases "groupRows data k vs") simp_all
      then show ?thesis
        using None ns key g mergeRow_new [of data v]
        by (simp add: loop_snoc process_seen)
    next
      case (Some c)
      then have "groupContact data (groupRows data k vs) = Some c"
        using snoc.IH [of k] by simp
      from mergeRow_old [OF this, of v] show ?thesis
        using Some ns key g by (simp add: loop_snoc process_seen)
    qed
  qed
qed

section \<open>The result, group by group\<close>

lemma uniqueDestinations_firstBy:
  "uniqueDestinations ds out S =
     out @ filter (\<lambda>d. \<not> S (destination d)) (firstBy destination ds)"
proof (induction ds arbitrary: out S)
  case Nil
  show ?case by simp
next
  case (Cons d ds)
  have "filter (\<lambda>e. \<not> (S(destination d := True)) (destination e)) (firstBy destination ds)
      = filter (\<lambda>e. \<not> S (destination e))
          (filter (\<lambda>e. destination e \<noteq> destination d) (firstBy destination ds))"
    by (auto intro: filter_cong)
  then show ?case
    by (simp add: Cons.IH)
qed

lemma uniqueLabels_firstOccurrences:
  "uniqueLabels ls out S = out @ filter (\<lambda>l. \<not> S l) (firstOccurrences ls)"
proof (induction ls arbitrary: out S)
  case Nil
  show ?case by simp
next
  case (Cons l ls)
  have "filter (\<lambda>e. \<not> (S(l := True)) e) (firstOccurrences ls)
      = filter (\<lambda>e. \<not> S e) (filter (\<lambda>e. e \<noteq> l) (firstOccurrences ls))"
    by (auto intro: filter_cong)
  then show ?case
    by (simp add: Cons.IH)
qed

lemma firstBy_filter_single:
  "find (\<lambda>u. f u = d) xs = Some u \<Longrightarrow> filter (\<lambda>e. f e = d) (firstBy f xs) = [u]"
proof (induction xs)
  case Nil
  then show ?case by simp
next
  case (Cons x xs)
  show ?case
  proof (cases "f x = d")
    case True
    then have "u = x" using Cons.prems by simp
    moreover have "filter (\<lambda>e. f e = d) (filter (\<lambda>y. f y \<noteq> f x) (firstBy f xs)) = []"
      using True by (auto simp: filter_empty_conv)
    ultimately show ?thesis using True by simp
  next
    case False
    then have "find (\<lambda>u. f u = d) xs = Some u" using Cons.prems by simp
    then have "filter (\<lambda>e. f e = d) (firstBy f xs) = [u]" by (rule Cons.IH)
    moreover have "filter (\<lambda>e. f e = d) (filter (\<lambda>y. f y \<noteq> f x) (firstBy f xs))
        = filter (\<lambda>e. f e = d) (firstBy f xs)"
      using False by (auto intro: filter_cong)
    ultimately show ?thesis using False by simp
  qed
qed

text \<open>The two specifications against the library: \<open>firstOccurrences\<close> is \<open>remdups\<close> read
  from the left, and \<open>firstBy\<close> leaves no two elements with the same image.\<close>

lemma remdups_append_single:
  "remdups (ys @ [x]) = filter (\<lambda>y. y \<noteq> x) (remdups ys) @ [x]"
  by (induction ys) auto

lemma firstOccurrences_remdups: "firstOccurrences xs = rev (remdups (rev xs))"
  by (induction xs) (simp_all add: remdups_append_single rev_filter)

lemma set_firstOccurrences: "set (firstOccurrences xs) = set xs"
  by (simp add: firstOccurrences_remdups)

lemma distinct_firstOccurrences: "distinct (firstOccurrences xs)"
  by (simp add: firstOccurrences_remdups)

lemma firstBy_id: "firstBy (\<lambda>x. x) xs = firstOccurrences xs"
  by (induction xs) simp_all

lemma distinct_map_firstBy: "distinct (map f (firstBy f xs))"
  by (induction xs) (auto simp: distinct_map_filter)

lemma find_map: "find P (map h xs) = map_option h (find (\<lambda>x. P (h x)) xs)"
  by (induction xs) simp_all

lemma aggregate_lookup:
  "fst (aggregate elements data) k =
     map_option contactObject (groupContact data (groupRows data k elements))"
  by (simp add: aggregate_def Let_def seen_loop)

lemma contactObject_destinations:
  "attr_destinations (contactObject c) = firstBy destination (destinations c)"
  by (simp add: contactObject_def uniqueDestinations_firstBy)

lemma contactObject_labels:
  "attr_labels (contactObject c) = firstOccurrences (labels c)"
  by (simp add: contactObject_def uniqueLabels_firstOccurrences)

text \<open>Every key of the result has a group that is not empty, and its object is read off
  the group.\<close>

lemma aggregate_Some:
  assumes "fst (aggregate elements data) k = Some c"
  obtains u us where "groupRows data k elements = u # us"
    and "attr_name c = stripSpaces (index_map u (NameField data))"
    and "attr_destinations c = firstBy destination (map (rowDestination data) (u # us))"
    and "attr_labels c = firstOccurrences (concat (map (rowLabels data) (u # us)))"
    and "attr_variables c =
           (\<lambda>f. if f \<in> set (Variables data)
                then Some (index_map (last (u # us)) f) else None)"
proof (cases "groupRows data k elements")
  case Nil
  then show ?thesis using assms by (simp add: aggregate_lookup)
next
  case (Cons u us)
  with assms have c:
    "c = contactObject
           \<lparr>name = stripSpaces (index_map u (NameField data)),
            destinations = map (rowDestination data) (u # us),
            labels = concat (map (rowLabels data) (u # us)),
            variables =
              (\<lambda>f. if f \<in> set (Variables data)
                   then Some (index_map (last (u # us)) f) else None)\<rparr>"
    by (simp add: aggregate_lookup)
  show ?thesis
    by (rule that [OF Cons])
       (simp_all add: c contactObject_destinations contactObject_labels,
        simp_all add: contactObject_def)
qed

lemma rowDestination_destination:
  "destination (rowDestination data v) = normalize (index_map v (DestinationField data))"
  by (simp add: rowDestination_def)

lemma rowKey_specKey: "rowKey data v = specKey data v"
  by (simp add: rowKey_def specKey_def groupKey_def keyFields_def Let_def filter_map o_def)

section \<open>Warnings\<close>

lemma setVariables_snd_mono: "set w \<subseteq> set (snd (setVariables fs v (m, w)))"
proof (induction fs arbitrary: m w)
  case Nil
  show ?case by simp
next
  case (Cons f fs)
  have "set w \<subseteq> set (if m f \<noteq> None then w @ [VariableAlreadyExists f] else w)"
    by auto
  also have "\<dots> \<subseteq> set (snd (setVariables (f # fs) v (m, w)))"
    using Cons.IH by simp
  finally show ?case .
qed

lemma setVariables_warns:
  "f \<in> set fs \<Longrightarrow> m f \<noteq> None \<Longrightarrow>
   VariableAlreadyExists f \<in> set (snd (setVariables fs v (m, w)))"
proof (induction fs arbitrary: m w)
  case Nil
  then show ?case by simp
next
  case (Cons g fs)
  show ?case
  proof (cases "f = g")
    case True
    then have "VariableAlreadyExists f \<in> set (w @ [VariableAlreadyExists g])" by simp
    then show ?thesis
      using Cons.prems(2) True setVariables_snd_mono [of "w @ [VariableAlreadyExists g]" fs v]
      by auto
  next
    case False
    then have "f \<in> set fs" using Cons.prems(1) by simp
    moreover have "(m(g \<mapsto> index_map v g)) f \<noteq> None" using False Cons.prems(2) by simp
    ultimately show ?thesis using Cons.IH by simp
  qed
qed

lemma process_warnings:
  "\<not> skipped data v \<Longrightarrow>
   warnings (process data i v st) =
     snd (setVariables (Variables data) v
        (variables (case seen st (rowKey data v) of
             None \<Rightarrow> newContact (stripSpaces (index_map v (NameField data)))
           | Some c \<Rightarrow> c), warnings st))"
  by (simp add: process_def skipped_def rowKey_def Let_def split_def)

lemma process_warnings_mono: "set (warnings st) \<subseteq> set (warnings (process data i v st))"
proof (cases "skipped data v")
  case True
  then show ?thesis by (auto simp: process_skipped)
next
  case False
  then show ?thesis by (simp add: process_warnings setVariables_snd_mono)
qed

lemma loop_warnings_mono: "set (warnings st) \<subseteq> set (warnings (loop data i vs st))"
proof (induction vs arbitrary: i st)
  case Nil
  show ?case by simp
next
  case (Cons v vs)
  have "set (warnings st) \<subseteq> set (warnings (process data i v st))"
    by (rule process_warnings_mono)
  also have "\<dots> \<subseteq> set (warnings (loop data i (v # vs) st))"
    using Cons.IH by simp
  finally show ?case .
qed

lemma groupRows_skip:
  "skipped data v \<Longrightarrow> groupRows data k (xs @ v # ys) = groupRows data k (xs @ ys)"
  by (simp add: groupRows_def)

lemma aggregate_skip:
  "skipped data v \<Longrightarrow> fst (aggregate (xs @ v # ys) data) = fst (aggregate (xs @ ys) data)"
  by (rule ext) (simp add: aggregate_lookup groupRows_skip)

lemma aggregate_skip_warning:
  assumes "skipped data v"
  shows "ElementHasEmptyName (length xs) [] \<in> set (snd (aggregate (xs @ v # ys) data))"
proof -
  let ?st = "loop data 0 xs \<lparr>seen = Map.empty, warnings = []\<rparr>"
  have "loop data 0 (xs @ v # ys) \<lparr>seen = Map.empty, warnings = []\<rparr>
      = loop data (Suc (length xs)) ys (process data (length xs) v ?st)"
    by (simp add: loop_append)
  moreover have "ElementHasEmptyName (length xs) [] \<in> set (warnings (process data (length xs) v ?st))"
    using assms by (simp add: process_skipped)
  ultimately show ?thesis
    using loop_warnings_mono [of "process data (length xs) v ?st" data "Suc (length xs)" ys]
    by (auto simp: aggregate_def Let_def)
qed

section \<open>Names of white space only\<close>

lemma spaceRunes_all:
  "list_all (\<lambda>r. r \<noteq> [] \<and> spaceWidth (r @ t) = length r) spaceRunes"
  by (simp add: spaceRunes_def asciiSpace_def unicodeSpace_def spaceWidth_def)

lemma spaceRune_width:
  "r \<in> set spaceRunes \<Longrightarrow> r \<noteq> [] \<and> spaceWidth (r @ t) = length r"
  using spaceRunes_all [of t] by (simp add: list_all_iff)

lemma FieldsFrom_spaceRune:
  assumes "r \<in> set spaceRunes"
  shows "FieldsFrom [] (r @ t) = FieldsFrom [] t"
proof -
  from spaceRune_width [OF assms, of t] obtain c cs where r: "r = c # cs"
    and w: "spaceWidth (c # cs @ t) = Suc (length cs)"
    by (cases r) auto
  show ?thesis unfolding r by (simp add: w Let_def)
qed

lemma Fields_spaces: "set rs \<subseteq> set spaceRunes \<Longrightarrow> Fields (concat rs) = []"
  by (induction rs) (simp_all add: Fields_def FieldsFrom_spaceRune)

lemma stripSpaces_spaces: "set rs \<subseteq> set spaceRunes \<Longrightarrow> stripSpaces (concat rs) = []"
  by (simp add: stripSpaces_def Fields_spaces)

section \<open>Keys and destinations of a row\<close>

lemma aggregate_destination_single:
  assumes "fst (aggregate elements data) k = Some c"
    and "find (\<lambda>u. normalize (index_map u (DestinationField data)) = d)
           (groupRows data k elements) = Some u"
  shows "filter (\<lambda>e. destination e = d) (attr_destinations c) = [rowDestination data u]"
proof -
  from assms(1) obtain u0 us where g: "groupRows data k elements = u0 # us"
    and ds: "attr_destinations c = firstBy destination (map (rowDestination data) (u0 # us))"
    by (rule aggregate_Some)
  have "find (\<lambda>e. destination e = d) (map (rowDestination data) (u0 # us))
          = Some (rowDestination data u)"
    using assms(2) unfolding g find_map rowDestination_destination by simp
  then show ?thesis
    unfolding ds by (rule firstBy_filter_single)
qed

lemma groupKey_no_values:
  "GroupByFields data = [] \<or> (\<forall>f \<in> set (GroupByFields data). index_map v f = []) \<Longrightarrow>
   groupKey data v nm = nm"
  by (auto simp: groupKey_def keyFields_def Let_def filter_empty_conv)

lemma process_seen_specKey:
  assumes "stripSpaces (index_map v (NameField data)) \<noteq> []"
  shows "seen (process data i v st) =
     (seen st)(specKey data v \<mapsto>
        mergeRow data v
          (case seen st (specKey data v) of
             None \<Rightarrow> newContact (stripSpaces (index_map v (NameField data)))
           | Some c \<Rightarrow> c))"
  using assms process_seen [of data v i st] by (simp add: skipped_def rowKey_specKey)

section \<open>The two documented runs\<close>

lemmas eval_simps =
  skipped_def rowKey_def groupKey_def keyFields_def index_map_def stripSpaces_def
  Fields_def spaceWidth_def spaceRunes_def asciiSpace_def unicodeSpace_def groupRows_def
  rowDestination_def rowLabels_def normalize_def destinationRegexp_ReplaceAllString_def
  isDigit_def contactObject_def

lemma stripSpaces_foo1: "stripSpaces ''foo1'' = ''foo1''"
  by (simp add: stripSpaces_def Fields_def spaceWidth_def spaceRunes_def asciiSpace_def
      unicodeSpace_def)

lemma stripSpaces_bar1: "stripSpaces ''bar1'' = ''bar1''"
  by (simp add: stripSpaces_def Fields_def spaceWidth_def spaceRunes_def asciiSpace_def
      unicodeSpace_def)

lemma example_keys:
  "map (\<lambda>v. (skipped example_mapping v, rowKey example_mapping v)) example_csv =
     [(False, ''foo1-foo''), (False, ''foo1-foo''), (False, ''foo1-foo''), (False, ''bar1-foo'')]"
  by (simp add: example_csv_def example_mapping_def example_row_def skipped_def rowKey_def
      groupKey_def keyFields_def index_map_def stripSpaces_foo1 stripSpaces_bar1)

lemma example_groups:
  "groupRows example_mapping k example_csv =
    (if k = ''foo1-foo'' then
       [example_row ''foo1'' ''1'' ''123'' ''local'' ''foo'' ''bar'',
        example_row ''foo1'' ''1'' ''456'' ''local'' ''foo'' ''bar'',
        example_row ''foo1'' ''2'' ''789'' ''other'' ''foo'' ''bar'']
     else if k = ''bar1-foo'' then
       [example_row ''bar1'' ''1'' ''123'' ''local'' ''foo'' ''bar'']
     else [])"
  using example_keys
  by (auto simp add: groupRows_def example_csv_def)

lemma example_result:
  "fst (aggregate example_csv example_mapping) =
    [''foo1-foo'' \<mapsto>
       \<lparr>attr_name = ''foo1'',
        attr_destinations =
          [\<lparr>code = ''1'', destination = ''+123''\<rparr>,
           \<lparr>code = ''1'', destination = ''+456''\<rparr>,
           \<lparr>code = ''2'', destination = ''+789''\<rparr>],
        attr_labels = [''local'', ''other''],
        attr_variables = [''foo_variable'' \<mapsto> ''foo'', ''bar_variable'' \<mapsto> ''bar'']\<rparr>,
     ''bar1-foo'' \<mapsto>
       \<lparr>attr_name = ''bar1'',
        attr_destinations = [\<lparr>code = ''1'', destination = ''+123''\<rparr>],
        attr_labels = [''local''],
        attr_variables = [''foo_variable'' \<mapsto> ''foo'', ''bar_variable'' \<mapsto> ''bar'']\<rparr>]"
  apply (rule ext)
  apply (simp add: aggregate_lookup example_groups contactObject_def)
  apply (simp add: example_row_def example_mapping_def index_map_def rowDestination_def
      rowLabels_def normalize_def destinationRegexp_ReplaceAllString_def isDigit_def
      stripSpaces_foo1 stripSpaces_bar1 fun_eq_iff)
  done

lemma example_warnings:
  "snd (aggregate example_csv example_mapping) =
    [VariableAlreadyExists ''foo_variable'', VariableAlreadyExists ''bar_variable'',
     VariableAlreadyExists ''foo_variable'', VariableAlreadyExists ''bar_variable'']"
  by (simp add: aggregate_def example_csv_def process_def example_mapping_def example_row_def
      groupKey_def keyFields_def index_map_def stripSpaces_foo1 stripSpaces_bar1
      newContact_def Let_def)

lemma test_keys:
  "map (\<lambda>v. (skipped test_mapping v, rowKey test_mapping v)) test_csv =
     [(False, ''foo1-123''), (False, ''foo1-321''), (False, ''foo1-123''), (False, ''bar1-123'')]"
  by (simp add: test_csv_def test_mapping_def test_row_def skipped_def rowKey_def
      groupKey_def keyFields_def index_map_def stripSpaces_foo1 stripSpaces_bar1)

lemma test_groups:
  "groupRows test_mapping k test_csv =
    (if k = ''foo1-123'' then
       [test_row ''foo1'' ''1'' ''ami-54d2a63b'' ''123'',
        test_row ''foo1'' ''2'' ''ami-54d2a63b'' ''123'']
     else if k = ''foo1-321'' then
       [test_row ''foo1'' ''1'' ''ami-54d2a63c'' ''321'']
     else if k = ''bar1-123'' then
       [test_row ''bar1'' ''m3.large'' ''ami-54d2a63b'' ''123'']
     else [])"
  using test_keys
  by (auto simp add: groupRows_def test_csv_def)

text \<open>The model gives the values that \<open>TestUniqueContactFunction_Known\<close> expects.\<close>

lemma test_result:
  "fst (aggregate test_csv test_mapping) =
    [''bar1-123'' \<mapsto>
       \<lparr>attr_name = ''bar1'',
        attr_destinations = [\<lparr>code = ''m3.large'', destination = ''+54263''\<rparr>],
        attr_labels = [''m3.large'', ''ami-54d2a63b''],
        attr_variables = [''name'' \<mapsto> ''bar1'']\<rparr>,
     ''foo1-123'' \<mapsto>
       \<lparr>attr_name = ''foo1'',
        attr_destinations = [\<lparr>code = ''1'', destination = ''+54263''\<rparr>],
        attr_labels = [''1'', ''ami-54d2a63b'', ''2''],
        attr_variables = [''name'' \<mapsto> ''foo1'']\<rparr>,
     ''foo1-321'' \<mapsto>
       \<lparr>attr_name = ''foo1'',
        attr_destinations = [\<lparr>code = ''1'', destination = ''+54263''\<rparr>],
        attr_labels = [''1'', ''ami-54d2a63c''],
        attr_variables = [''name'' \<mapsto> ''foo1'']\<rparr>]"
  apply (rule ext)
  apply (simp add: aggregate_lookup test_groups contactObject_def)
  apply (simp add: test_row_def test_mapping_def index_map_def rowDestination_def
      rowLabels_def normalize_def destinationRegexp_ReplaceAllString_def isDigit_def
      stripSpaces_foo1 stripSpaces_bar1 fun_eq_iff)
  done

section \<open>The worked example\<close>

text \<open>
  C1. On the four rows of the documented example, with the mapping that groups by
  \<open>name\<close> and \<open>foo_variable\<close>, \<open>Run\<close> returns a map with exactly the two keys \<open>foo1-foo\<close>
  and \<open>bar1-foo\<close>: the first with name \<open>foo1\<close>, labels \<open>local\<close>, \<open>other\<close>, the two variables
  and the destinations \<open>(1, +123)\<close>, \<open>(1, +456)\<close>, \<open>(2, +789)\<close>; the second with name \<open>bar1\<close>,
  label \<open>local\<close>, the same variables and the destination \<open>(1, +123)\<close>. The log holds the
  four warnings of the variables written again by the second and third row.
\<close>

theorem worked_example:
  "Run (Inr (example_csv, example_mapping)) =
    Inr ([''foo1-foo'' \<mapsto>
           \<lparr>attr_name = ''foo1'',
            attr_destinations =
              [\<lparr>code = ''1'', destination = ''+123''\<rparr>,
               \<lparr>code = ''1'', destination = ''+456''\<rparr>,
               \<lparr>code = ''2'', destination = ''+789''\<rparr>],
            attr_labels = [''local'', ''other''],
            attr_variables = [''foo_variable'' \<mapsto> ''foo'', ''bar_variable'' \<mapsto> ''bar'']\<rparr>,
          ''bar1-foo'' \<mapsto>
           \<lparr>attr_name = ''bar1'',
            attr_destinations = [\<lparr>code = ''1'', destination = ''+123''\<rparr>],
            attr_labels = [''local''],
            attr_variables = [''foo_variable'' \<mapsto> ''foo'', ''bar_variable'' \<mapsto> ''bar'']\<rparr>],
         [VariableAlreadyExists ''foo_variable'', VariableAlreadyExists ''bar_variable'',
          VariableAlreadyExists ''foo_variable'', VariableAlreadyExists ''bar_variable''])"
  unfolding Run_def using example_result example_warnings
  by (simp add: prod_eq_iff)

section \<open>Deduplication of destinations\<close>

text \<open>
  C2. Destinations are deduplicated on the normalized destination string alone. Let \<open>c\<close>
  be the object of key \<open>k\<close> in the result and \<open>u\<close> the first row of the group of \<open>k\<close>, in
  input order, whose destination value normalizes to \<open>d\<close>. Then \<open>c\<close> has exactly one
  destination entry with the string \<open>d\<close>, and it carries the code of \<open>u\<close>; a row of the
  group with the same normalized destination and another code has no entry.
\<close>

theorem destination_dedup:
  assumes "fst (aggregate elements data) k = Some c"
    and "find (\<lambda>u. normalize (index_map u (DestinationField data)) = d)
           (groupRows data k elements) = Some u"
  shows "filter (\<lambda>e. destination e = d) (attr_destinations c) =
           [\<lparr>code = index_map u (CodeField data), destination = d\<rparr>]
       \<and> (\<forall>w \<in> set (groupRows data k elements).
            normalize (index_map w (DestinationField data)) = d \<longrightarrow>
            index_map w (CodeField data) \<noteq> index_map u (CodeField data) \<longrightarrow>
            rowDestination data w \<notin> set (attr_destinations c))"
proof -
  from assms(2) have d: "normalize (index_map u (DestinationField data)) = d"
    by (auto simp: find_Some_iff)
  have single:
    "filter (\<lambda>e. destination e = d) (attr_destinations c) = [rowDestination data u]"
    using assms by (rule aggregate_destination_single)
  have first: "filter (\<lambda>e. destination e = d) (attr_destinations c) =
           [\<lparr>code = index_map u (CodeField data), destination = d\<rparr>]"
    using single d by (simp add: rowDestination_def)
  have later: "rowDestination data w \<notin> set (attr_destinations c)"
    if "normalize (index_map w (DestinationField data)) = d"
      and "index_map w (CodeField data) \<noteq> index_map u (CodeField data)" for w
  proof
    assume "rowDestination data w \<in> set (attr_destinations c)"
    with that(1) have "rowDestination data w
        \<in> set (filter (\<lambda>e. destination e = d) (attr_destinations c))"
      by (simp add: rowDestination_destination)
    then have "rowDestination data w = rowDestination data u"
      unfolding single by simp
    then show False using that(2) by (simp add: rowDestination_def)
  qed
  from first later show ?thesis by blast
qed

text \<open>The group \<open>foo1-123\<close> of the unit test: its two rows have the destination
  \<open>+54263\<close> and the codes \<open>1\<close> and \<open>2\<close>; the entry with code \<open>1\<close> is the only one.\<close>

theorem destination_dedup_witness:
  "fst (aggregate test_csv test_mapping) ''foo1-123'' =
     Some \<lparr>attr_name = ''foo1'',
           attr_destinations = [\<lparr>code = ''1'', destination = ''+54263''\<rparr>],
           attr_labels = [''1'', ''ami-54d2a63b'', ''2''],
           attr_variables = [''name'' \<mapsto> ''foo1'']\<rparr>
   \<and> find (\<lambda>u. normalize (index_map u (DestinationField test_mapping)) = ''+54263'')
         (groupRows test_mapping ''foo1-123'' test_csv)
       = Some (test_row ''foo1'' ''1'' ''ami-54d2a63b'' ''123'')
   \<and> test_row ''foo1'' ''2'' ''ami-54d2a63b'' ''123''
         \<in> set (groupRows test_mapping ''foo1-123'' test_csv)
   \<and> filter (\<lambda>e. destination e = ''+54263'')
         [\<lparr>code = ''1'', destination = ''+54263''\<rparr>]
       = [\<lparr>code = ''1'', destination = ''+54263''\<rparr>]
   \<and> \<lparr>code = ''2'', destination = ''+54263''\<rparr>
         \<notin> set [\<lparr>code = ''1'', destination = ''+54263''\<rparr>]"
proof -
  let ?c = "\<lparr>attr_name = ''foo1'',
           attr_destinations = [\<lparr>code = ''1'', destination = ''+54263''\<rparr>],
           attr_labels = [''1'', ''ami-54d2a63b'', ''2''],
           attr_variables = [''name'' \<mapsto> ''foo1'']\<rparr>"
  let ?u = "test_row ''foo1'' ''1'' ''ami-54d2a63b'' ''123''"
  let ?w = "test_row ''foo1'' ''2'' ''ami-54d2a63b'' ''123''"
  have h1: "fst (aggregate test_csv test_mapping) ''foo1-123'' = Some ?c"
    by (simp add: test_result)
  have h2: "find (\<lambda>u. normalize (index_map u (DestinationField test_mapping)) = ''+54263'')
         (groupRows test_mapping ''foo1-123'' test_csv) = Some ?u"
    by (simp add: test_groups)
       (simp add: test_mapping_def test_row_def index_map_def normalize_def
        destinationRegexp_ReplaceAllString_def isDigit_def)
  have h3: "?w \<in> set (groupRows test_mapping ''foo1-123'' test_csv)"
    by (simp add: test_groups)
  have w: "rowDestination test_mapping ?w = \<lparr>code = ''2'', destination = ''+54263''\<rparr>"
    "normalize (index_map ?w (DestinationField test_mapping)) = ''+54263''"
    "index_map ?w (CodeField test_mapping) \<noteq> index_map ?u (CodeField test_mapping)"
    "index_map ?u (CodeField test_mapping) = ''1''"
    by (simp_all add: test_mapping_def test_row_def index_map_def normalize_def
        rowDestination_def destinationRegexp_ReplaceAllString_def isDigit_def)
  from destination_dedup [OF h1 h2] h3 w
  have "filter (\<lambda>e. destination e = ''+54263'') (attr_destinations ?c)
       = [\<lparr>code = ''1'', destination = ''+54263''\<rparr>]"
    and "\<lparr>code = ''2'', destination = ''+54263''\<rparr> \<notin> set (attr_destinations ?c)"
    by auto
  with h1 h2 h3 show ?thesis by simp
qed

section \<open>The grouping key\<close>

text \<open>
  C3. The key of a row that is not skipped is the key of the specification: the values
  of the group-by fields that are not empty in the row, in declared order, joined with
  \<open>-\<close>, and the stripped name when the mapping has no group-by field or every such value
  is empty. The key computed by the loop is that key; the iteration writes the entry of
  that key, appending the destination of the row to it, and no other entry; and the row
  belongs to the group of that key, which is a key of the result.
\<close>

theorem grouping_key:
  assumes "stripSpaces (index_map v (NameField data)) \<noteq> []"
  shows "groupKey data v (stripSpaces (index_map v (NameField data))) = specKey data v
       \<and> (\<forall>k. k \<noteq> specKey data v \<longrightarrow> seen (process data i v st) k = seen st k)
       \<and> (\<exists>c. seen (process data i v st) (specKey data v) = Some c \<and>
            destinations c =
              (case seen st (specKey data v) of None \<Rightarrow> [] | Some c0 \<Rightarrow> destinations c0)
                @ [rowDestination data v])
       \<and> (v \<in> set elements \<longrightarrow>
            v \<in> set (groupRows data (specKey data v) elements) \<and>
            (\<exists>c. fst (aggregate elements data) (specKey data v) = Some c))
       \<and> (GroupByFields data = [] \<or> (\<forall>f \<in> set (GroupByFields data). index_map v f = []) \<longrightarrow>
            specKey data v = stripSpaces (index_map v (NameField data)))"
proof (intro conjI allI impI)
  show key: "groupKey data v (stripSpaces (index_map v (NameField data))) = specKey data v"
    using rowKey_specKey [of data v] by (simp add: rowKey_def)
  show "seen (process data i v st) k = seen st k" if "k \<noteq> specKey data v" for k
    using that by (simp add: process_seen_specKey [OF assms])
  show "\<exists>c. seen (process data i v st) (specKey data v) = Some c \<and>
            destinations c =
              (case seen st (specKey data v) of None \<Rightarrow> [] | Some c0 \<Rightarrow> destinations c0)
                @ [rowDestination data v]"
    by (simp add: process_seen_specKey [OF assms] mergeRow_def newContact_def
        split: option.split)
  show "specKey data v = stripSpaces (index_map v (NameField data))"
    if "GroupByFields data = [] \<or> (\<forall>f \<in> set (GroupByFields data). index_map v f = [])"
    using groupKey_no_values [OF that] key by simp
  assume mem: "v \<in> set elements"
  then show g: "v \<in> set (groupRows data (specKey data v) elements)"
    using assms by (simp add: groupRows_def skipped_def rowKey_specKey)
  then show "\<exists>c. fst (aggregate elements data) (specKey data v) = Some c"
    by (cases "groupRows data (specKey data v) elements") (auto simp: aggregate_lookup)
qed

text \<open>The first row of the documented example has the key \<open>foo1-foo\<close>; with no
  group-by field its key is its name \<open>foo1\<close>.\<close>

theorem grouping_key_witness:
  "stripSpaces (index_map (example_row ''foo1'' ''1'' ''123'' ''local'' ''foo'' ''bar'')
      (NameField example_mapping)) = ''foo1''
   \<and> groupKey example_mapping (example_row ''foo1'' ''1'' ''123'' ''local'' ''foo'' ''bar'') ''foo1''
        = ''foo1-foo''
   \<and> seen (process example_mapping 0 (example_row ''foo1'' ''1'' ''123'' ''local'' ''foo'' ''bar'')
         \<lparr>seen = Map.empty, warnings = []\<rparr>) ''bar1-foo'' = None
   \<and> (\<exists>c. seen (process example_mapping 0
              (example_row ''foo1'' ''1'' ''123'' ''local'' ''foo'' ''bar'')
              \<lparr>seen = Map.empty, warnings = []\<rparr>) ''foo1-foo'' = Some c
          \<and> destinations c = [\<lparr>code = ''1'', destination = ''+123''\<rparr>])
   \<and> (\<exists>c. fst (aggregate example_csv example_mapping) ''foo1-foo'' = Some c)
   \<and> specKey (example_mapping\<lparr>GroupByFields := []\<rparr>)
        (example_row ''foo1'' ''1'' ''123'' ''local'' ''foo'' ''bar'') = ''foo1''"
proof -
  let ?v = "example_row ''foo1'' ''1'' ''123'' ''local'' ''foo'' ''bar''"
  let ?st = "\<lparr>seen = Map.empty, warnings = []\<rparr> :: state"
  let ?d = "example_mapping\<lparr>GroupByFields := []\<rparr>"
  have nm: "stripSpaces (index_map ?v (NameField example_mapping)) = ''foo1''"
    "stripSpaces (index_map ?v (NameField ?d)) = ''foo1''"
    by (simp_all add: example_mapping_def example_row_def index_map_def stripSpaces_foo1)
  have h: "stripSpaces (index_map ?v (NameField example_mapping)) \<noteq> []"
    "stripSpaces (index_map ?v (NameField ?d)) \<noteq> []"
    by (simp_all add: nm)
  have key: "specKey example_mapping ?v = ''foo1-foo''"
    by (simp add: specKey_def example_mapping_def example_row_def index_map_def)
  have mem: "?v \<in> set example_csv"
    by (simp add: example_csv_def)
  have dest: "rowDestination example_mapping ?v = \<lparr>code = ''1'', destination = ''+123''\<rparr>"
    by (simp add: rowDestination_def example_mapping_def example_row_def index_map_def
        normalize_def destinationRegexp_ReplaceAllString_def isDigit_def)
  have nogroup: "GroupByFields ?d = []"
    by simp
  from grouping_key [OF h(1), of 0 ?st example_csv] mem
  have "groupKey example_mapping ?v ''foo1'' = ''foo1-foo''"
    and "seen (process example_mapping 0 ?v ?st) ''bar1-foo'' = None"
    and "\<exists>c. seen (process example_mapping 0 ?v ?st) ''foo1-foo'' = Some c
          \<and> destinations c = [\<lparr>code = ''1'', destination = ''+123''\<rparr>]"
    and "\<exists>c. fst (aggregate example_csv example_mapping) ''foo1-foo'' = Some c"
    by (simp_all add: nm key dest)
  moreover from grouping_key [OF h(2), of 0 ?st example_csv] nogroup
  have "specKey ?d ?v = ''foo1''"
    by (simp add: nm)
  ultimately show ?thesis using nm(1) by simp
qed

section \<open>Rows with an empty name\<close>

text \<open>
  C4. A row whose name is empty once the white space is stripped is skipped, and that is
  not a failure. The name is empty in particular when the row has no name field and
  when its value is empty or made of white space characters only. For such a row the
  iteration changes nothing but the log, which gets one warning: no entry of \<open>seen\<close> is
  created or touched. \<open>Run\<close> on an input that contains the row succeeds, returns the
  result of the input without the row, and its log holds the warning with the index of
  the row.
\<close>

theorem empty_name_skip:
  "((v (NameField data) = None \<or>
      (\<exists>rs. set rs \<subseteq> set spaceRunes \<and> v (NameField data) = Some (concat rs))) \<longrightarrow>
      stripSpaces (index_map v (NameField data)) = [])
   \<and> (stripSpaces (index_map v (NameField data)) = [] \<longrightarrow>
        process data i v st = st\<lparr>warnings := warnings st @ [ElementHasEmptyName i []]\<rparr>
        \<and> (\<exists>w. Run (Inr (xs @ v # ys, data)) = Inr (fst (aggregate (xs @ ys) data), w)
              \<and> ElementHasEmptyName (length xs) [] \<in> set w))"
proof (intro conjI impI)
  assume "v (NameField data) = None \<or>
      (\<exists>rs. set rs \<subseteq> set spaceRunes \<and> v (NameField data) = Some (concat rs))"
  then show "stripSpaces (index_map v (NameField data)) = []"
  proof
    assume "v (NameField data) = None"
    then have "index_map v (NameField data) = concat []" by (simp add: index_map_def)
    then show ?thesis using stripSpaces_spaces [of "[]"] by simp
  next
    assume "\<exists>rs. set rs \<subseteq> set spaceRunes \<and> v (NameField data) = Some (concat rs)"
    then obtain rs where "set rs \<subseteq> set spaceRunes" "index_map v (NameField data) = concat rs"
      by (auto simp: index_map_def)
    then show ?thesis by (simp add: stripSpaces_spaces)
  qed
next
  assume "stripSpaces (index_map v (NameField data)) = []"
  then have sk: "skipped data v" by (simp add: skipped_def)
  then show "process data i v st = st\<lparr>warnings := warnings st @ [ElementHasEmptyName i []]\<rparr>"
    by (rule process_skipped)
  have "Run (Inr (xs @ v # ys, data)) =
      Inr (fst (aggregate (xs @ ys) data), snd (aggregate (xs @ v # ys) data))"
    using aggregate_skip [OF sk, of xs ys] by (simp add: Run_def prod_eq_iff)
  with aggregate_skip_warning [OF sk, of xs ys]
  show "\<exists>w. Run (Inr (xs @ v # ys, data)) = Inr (fst (aggregate (xs @ ys) data), w)
              \<and> ElementHasEmptyName (length xs) [] \<in> set w"
    by blast
qed

text \<open>A row whose name is a space, a tab and a no-break space, between the first and
  the last row of the documented example.\<close>

theorem empty_name_skip_witness:
  "stripSpaces (index_map (map_of [(''name'', [CHR 0x20, CHR 0x09, CHR 0xC2, CHR 0xA0]),
       (''code'', ''1''), (''destination'', ''555'')]) (NameField example_mapping)) = []
   \<and> process example_mapping 1
        (map_of [(''name'', [CHR 0x20, CHR 0x09, CHR 0xC2, CHR 0xA0]),
           (''code'', ''1''), (''destination'', ''555'')])
        \<lparr>seen = Map.empty, warnings = []\<rparr>
       = \<lparr>seen = Map.empty, warnings = [ElementHasEmptyName 1 []]\<rparr>
   \<and> (\<exists>w. Run (Inr ([example_row ''foo1'' ''1'' ''123'' ''local'' ''foo'' ''bar'',
                       map_of [(''name'', [CHR 0x20, CHR 0x09, CHR 0xC2, CHR 0xA0]),
                         (''code'', ''1''), (''destination'', ''555'')],
                       example_row ''bar1'' ''1'' ''123'' ''local'' ''foo'' ''bar''],
                      example_mapping))
            = Inr (fst (aggregate [example_row ''foo1'' ''1'' ''123'' ''local'' ''foo'' ''bar'',
                                   example_row ''bar1'' ''1'' ''123'' ''local'' ''foo'' ''bar'']
                         example_mapping), w)
          \<and> ElementHasEmptyName 1 [] \<in> set w)"
proof -
  let ?v = "map_of [(''name'', [CHR 0x20, CHR 0x09, CHR 0xC2, CHR 0xA0]),
       (''code'', ''1''), (''destination'', ''555'')] :: row"
  let ?st = "\<lparr>seen = Map.empty, warnings = []\<rparr> :: state"
  let ?x = "example_row ''foo1'' ''1'' ''123'' ''local'' ''foo'' ''bar''"
  let ?y = "example_row ''bar1'' ''1'' ''123'' ''local'' ''foo'' ''bar''"
  have "set [[CHR 0x20], [CHR 0x09], [CHR 0xC2, CHR 0xA0]] \<subseteq> set spaceRunes
      \<and> ?v (NameField example_mapping)
          = Some (concat [[CHR 0x20], [CHR 0x09], [CHR 0xC2, CHR 0xA0]])"
    by (simp add: spaceRunes_def asciiSpace_def unicodeSpace_def example_mapping_def)
  then have h: "?v (NameField example_mapping) = None \<or>
      (\<exists>rs. set rs \<subseteq> set spaceRunes \<and> ?v (NameField example_mapping) = Some (concat rs))"
    by blast
  note inst = empty_name_skip [of ?v example_mapping 1 ?st "[?x]" "[?y]"]
  from inst h have e: "stripSpaces (index_map ?v (NameField example_mapping)) = []"
    by blast
  with inst have "process example_mapping 1 ?v ?st
       = ?st\<lparr>warnings := warnings ?st @ [ElementHasEmptyName 1 []]\<rparr>"
    and "\<exists>w. Run (Inr ([?x] @ ?v # [?y], example_mapping))
            = Inr (fst (aggregate ([?x] @ [?y]) example_mapping), w)
          \<and> ElementHasEmptyName (length [?x]) [] \<in> set w"
    by blast+
  with e show ?thesis by simp
qed

section \<open>Names\<close>

text \<open>
  C5. The name of a group is the stripped name of its first row. For every key \<open>k\<close> of
  the result, the group of \<open>k\<close> is not empty and the name of the object is the stripped
  name of the first row of the group; and one more iteration of the loop, whatever the
  row, leaves the name of every contact already stored unchanged.
\<close>

theorem name_retention:
  "(fst (aggregate elements data) k = Some c \<longrightarrow>
      (\<exists>u us. groupRows data k elements = u # us \<and>
         attr_name c = stripSpaces (index_map u (NameField data))))
   \<and> (seen st k = Some c0 \<longrightarrow>
      (\<exists>c'. seen (process data i v st) k = Some c' \<and> name c' = name c0))"
proof (intro conjI impI)
  assume "fst (aggregate elements data) k = Some c"
  then show "\<exists>u us. groupRows data k elements = u # us \<and>
         attr_name c = stripSpaces (index_map u (NameField data))"
    by (rule aggregate_Some) blast
next
  assume old: "seen st k = Some c0"
  show "\<exists>c'. seen (process data i v st) k = Some c' \<and> name c' = name c0"
  proof (cases "skipped data v")
    case True
    then show ?thesis using old by (simp add: process_skipped)
  next
    case False
    then show ?thesis using old by (auto simp: process_seen mergeRow_def)
  qed
qed

text \<open>Two rows of one group with the raw names \<open>" Alice   Smith "\<close> and \<open>"Bob"\<close>: the
  name of the group is \<open>"Alice Smith"\<close>, also after the second row is processed.\<close>

theorem name_retention_witness:
  "fst (aggregate
         [map_of [(''name'', '' Alice   Smith ''), (''id'', ''7'')],
          map_of [(''name'', ''Bob''), (''id'', ''7'')]]
         \<lparr>NameField = ''name'', CodeField = ''code'', DestinationField = ''phone'',
          Labels = [], Variables = [], GroupByFields = [''id'']\<rparr>) ''7''
     = Some \<lparr>attr_name = ''Alice Smith'',
             attr_destinations = [\<lparr>code = [], destination = ''+''\<rparr>],
             attr_labels = [], attr_variables = Map.empty\<rparr>
   \<and> (\<exists>c'. seen (process
          \<lparr>NameField = ''name'', CodeField = ''code'', DestinationField = ''phone'',
           Labels = [], Variables = [], GroupByFields = [''id'']\<rparr> 1
          (map_of [(''name'', ''Bob''), (''id'', ''7'')])
          \<lparr>seen = [''7'' \<mapsto> newContact ''Alice Smith''], warnings = []\<rparr>) ''7'' = Some c'
        \<and> name c' = ''Alice Smith'')"
proof -
  let ?rows = "[map_of [(''name'', '' Alice   Smith ''), (''id'', ''7'')],
          map_of [(''name'', ''Bob''), (''id'', ''7'')]]"
  let ?m = "\<lparr>NameField = ''name'', CodeField = ''code'', DestinationField = ''phone'',
          Labels = [], Variables = [], GroupByFields = [''id'']\<rparr>"
  let ?c = "\<lparr>attr_name = ''Alice Smith'',
             attr_destinations = [\<lparr>code = [], destination = ''+''\<rparr>],
             attr_labels = [], attr_variables = Map.empty\<rparr>"
  let ?st = "\<lparr>seen = [''7'' \<mapsto> newContact ''Alice Smith''], warnings = []\<rparr>"
  have h1: "fst (aggregate ?rows ?m) ''7'' = Some ?c"
    by (simp add: aggregate_lookup eval_simps)
  have h2: "seen ?st ''7'' = Some (newContact ''Alice Smith'')"
    by simp
  note inst = name_retention [of ?rows ?m "''7''" ?c ?st "newContact ''Alice Smith''" 1
       "map_of [(''name'', ''Bob''), (''id'', ''7'')]"]
  from inst h2
  have "\<exists>c'. seen (process ?m 1 (map_of [(''name'', ''Bob''), (''id'', ''7'')]) ?st) ''7''
            = Some c' \<and> name c' = ''Alice Smith''"
    by (simp add: newContact_def)
  with h1 show ?thesis by simp
qed

section \<open>Variables\<close>

text \<open>
  C6. The last row of a group decides its variables. For every key \<open>k\<close> of the result
  and every variable field \<open>f\<close> of the mapping, the group of \<open>k\<close> has a last row and the
  variable \<open>f\<close> of the object is the value of \<open>f\<close> in that row. When a row that is not
  skipped meets a contact of its key that already has the variable \<open>f\<close>, the iteration
  stores the value of the row and logs the warning \<open>VariableAlreadyExists f\<close>; and \<open>Run\<close>
  on rows and a mapping never returns an error.
\<close>

theorem variable_last_write_wins:
  "(fst (aggregate elements data) k = Some c \<and> f \<in> set (Variables data) \<longrightarrow>
      (\<exists>us u. groupRows data k elements = us @ [u] \<and>
         attr_variables c f = Some (index_map u f)))
   \<and> (stripSpaces (index_map v (NameField data)) \<noteq> [] \<and>
      seen st (rowKey data v) = Some c0 \<and> variables c0 f \<noteq> None \<and>
      f \<in> set (Variables data) \<longrightarrow>
        (\<exists>c'. seen (process data i v st) (rowKey data v) = Some c' \<and>
           variables c' f = Some (index_map v f)) \<and>
        VariableAlreadyExists f \<in> set (warnings (process data i v st)))
   \<and> (\<exists>r. Run (Inr (elements, data)) = Inr r)"
proof (intro conjI impI)
  assume "fst (aggregate elements data) k = Some c \<and> f \<in> set (Variables data)"
  then have c: "fst (aggregate elements data) k = Some c" and f: "f \<in> set (Variables data)"
    by simp_all
  from c obtain u0 us0 where g: "groupRows data k elements = u0 # us0"
    and vars: "attr_variables c =
           (\<lambda>f. if f \<in> set (Variables data)
                then Some (index_map (last (u0 # us0)) f) else None)"
    by (rule aggregate_Some)
  have "u0 # us0 = butlast (u0 # us0) @ [last (u0 # us0)]"
    by (rule append_butlast_last_id [symmetric]) simp
  with g vars f show "\<exists>us u. groupRows data k elements = us @ [u] \<and>
         attr_variables c f = Some (index_map u f)"
    by (intro exI [of _ "butlast (u0 # us0)"] exI [of _ "last (u0 # us0)"]) simp
next
  assume h: "stripSpaces (index_map v (NameField data)) \<noteq> [] \<and>
      seen st (rowKey data v) = Some c0 \<and> variables c0 f \<noteq> None \<and>
      f \<in> set (Variables data)"
  then have ns: "\<not> skipped data v" by (simp add: skipped_def)
  show "\<exists>c'. seen (process data i v st) (rowKey data v) = Some c' \<and>
           variables c' f = Some (index_map v f)"
    using h by (simp add: process_seen [OF ns] mergeRow_def)
  show "VariableAlreadyExists f \<in> set (warnings (process data i v st))"
    using h by (simp add: process_warnings [OF ns] setVariables_warns)
next
  show "\<exists>r. Run (Inr (elements, data)) = Inr r"
    by (simp add: Run_def)
qed

text \<open>Two rows of the group \<open>ann\<close> that set the variable \<open>x\<close> to \<open>v1\<close> and then to
  \<open>v2\<close>: the result has \<open>v2\<close>, and the second iteration logs the warning.\<close>

theorem variable_last_write_wins_witness:
  "fst (aggregate
         [map_of [(''name'', ''ann''), (''x'', ''v1'')],
          map_of [(''name'', ''ann''), (''x'', ''v2'')]]
         \<lparr>NameField = ''name'', CodeField = ''code'', DestinationField = ''phone'',
          Labels = [], Variables = [''x''], GroupByFields = []\<rparr>) ''ann''
     = Some \<lparr>attr_name = ''ann'',
             attr_destinations = [\<lparr>code = [], destination = ''+''\<rparr>],
             attr_labels = [], attr_variables = [''x'' \<mapsto> ''v2'']\<rparr>
   \<and> (\<exists>c'. seen (process
          \<lparr>NameField = ''name'', CodeField = ''code'', DestinationField = ''phone'',
           Labels = [], Variables = [''x''], GroupByFields = []\<rparr> 1
          (map_of [(''name'', ''ann''), (''x'', ''v2'')])
          \<lparr>seen = [''ann'' \<mapsto> \<lparr>name = ''ann'', destinations = [], labels = [],
                               variables = [''x'' \<mapsto> ''v1'']\<rparr>],
           warnings = []\<rparr>) ''ann'' = Some c'
        \<and> variables c' ''x'' = Some ''v2'')
   \<and> VariableAlreadyExists ''x'' \<in> set (warnings (process
          \<lparr>NameField = ''name'', CodeField = ''code'', DestinationField = ''phone'',
           Labels = [], Variables = [''x''], GroupByFields = []\<rparr> 1
          (map_of [(''name'', ''ann''), (''x'', ''v2'')])
          \<lparr>seen = [''ann'' \<mapsto> \<lparr>name = ''ann'', destinations = [], labels = [],
                               variables = [''x'' \<mapsto> ''v1'']\<rparr>],
           warnings = []\<rparr>))"
proof -
  let ?r1 = "map_of [(''name'', ''ann''), (''x'', ''v1'')] :: row"
  let ?r2 = "map_of [(''name'', ''ann''), (''x'', ''v2'')] :: row"
  let ?m = "\<lparr>NameField = ''name'', CodeField = ''code'', DestinationField = ''phone'',
          Labels = [], Variables = [''x''], GroupByFields = []\<rparr>"
  let ?old = "\<lparr>name = ''ann'', destinations = [], labels = [],
              variables = [''x'' \<mapsto> ''v1'']\<rparr>"
  let ?st = "\<lparr>seen = [''ann'' \<mapsto> ?old], warnings = []\<rparr>"
  let ?c = "\<lparr>attr_name = ''ann'',
             attr_destinations = [\<lparr>code = [], destination = ''+''\<rparr>],
             attr_labels = [], attr_variables = [''x'' \<mapsto> ''v2'']\<rparr>"
  have h1: "fst (aggregate [?r1, ?r2] ?m) ''ann'' = Some ?c"
    by (simp add: aggregate_lookup eval_simps fun_eq_iff)
  have key: "rowKey ?m ?r2 = ''ann''" "stripSpaces (index_map ?r2 (NameField ?m)) \<noteq> []"
    "index_map ?r2 ''x'' = ''v2''"
    by (simp_all add: eval_simps)
  have h2: "stripSpaces (index_map ?r2 (NameField ?m)) \<noteq> [] \<and>
      seen ?st (rowKey ?m ?r2) = Some ?old \<and> variables ?old ''x'' \<noteq> None \<and>
      ''x'' \<in> set (Variables ?m)"
    using key by simp
  note inst = variable_last_write_wins [of "[?r1, ?r2]" ?m "''ann''" ?c "''x''" ?r2 ?st ?old 1]
  from inst h2 have "(\<exists>c'. seen (process ?m 1 ?r2 ?st) (rowKey ?m ?r2) = Some c' \<and>
           variables c' ''x'' = Some (index_map ?r2 ''x''))"
    and "VariableAlreadyExists ''x'' \<in> set (warnings (process ?m 1 ?r2 ?st))"
    by blast+
  then show ?thesis using h1 key by simp
qed

section \<open>Labels\<close>

text \<open>
  C7. The labels of a group keep the first occurrence of every string, in order. For
  every key \<open>k\<close> of the result, the labels of the object are the values of the label
  fields, in declared order, of the rows of the group in input order, with every string
  removed that repeats an earlier one. A contact that has accumulated the labels
  \<open>a, b, a, c\<close> gives the labels \<open>a, b, c\<close>.
\<close>

theorem label_dedup:
  "(fst (aggregate elements data) k = Some c \<longrightarrow>
      attr_labels c =
        firstOccurrences
          (concat (map (\<lambda>v. map (index_map v) (Labels data)) (groupRows data k elements))))
   \<and> attr_labels (contactObject \<lparr>name = n, destinations = ds,
         labels = [''a'', ''b'', ''a'', ''c''], variables = m\<rparr>) = [''a'', ''b'', ''c'']"
proof (intro conjI impI)
  assume "fst (aggregate elements data) k = Some c"
  then obtain u us where "groupRows data k elements = u # us"
    and "attr_labels c = firstOccurrences (concat (map (rowLabels data) (u # us)))"
    by (rule aggregate_Some)
  moreover have "rowLabels data = (\<lambda>v. map (index_map v) (Labels data))"
    by (simp add: fun_eq_iff rowLabels_def)
  ultimately show "attr_labels c =
      firstOccurrences
        (concat (map (\<lambda>v. map (index_map v) (Labels data)) (groupRows data k elements)))"
    by simp
next
  show "attr_labels (contactObject \<lparr>name = n, destinations = ds,
         labels = [''a'', ''b'', ''a'', ''c''], variables = m\<rparr>) = [''a'', ''b'', ''c'']"
    by (simp add: contactObject_def)
qed

text \<open>The group \<open>foo1-123\<close> of the unit test: the label values of its two rows are
  \<open>1, ami-54d2a63b, 2, ami-54d2a63b\<close> and its labels are \<open>1, ami-54d2a63b, 2\<close>.\<close>

theorem label_dedup_witness:
  "fst (aggregate test_csv test_mapping) ''foo1-123'' =
     Some \<lparr>attr_name = ''foo1'',
           attr_destinations = [\<lparr>code = ''1'', destination = ''+54263''\<rparr>],
           attr_labels = [''1'', ''ami-54d2a63b'', ''2''],
           attr_variables = [''name'' \<mapsto> ''foo1'']\<rparr>
   \<and> [''1'', ''ami-54d2a63b'', ''2''] =
       firstOccurrences
         (concat (map (\<lambda>v. map (index_map v) (Labels test_mapping))
            (groupRows test_mapping ''foo1-123'' test_csv)))
   \<and> concat (map (\<lambda>v. map (index_map v) (Labels test_mapping))
            (groupRows test_mapping ''foo1-123'' test_csv))
       = [''1'', ''ami-54d2a63b'', ''2'', ''ami-54d2a63b'']"
proof -
  let ?c = "\<lparr>attr_name = ''foo1'',
           attr_destinations = [\<lparr>code = ''1'', destination = ''+54263''\<rparr>],
           attr_labels = [''1'', ''ami-54d2a63b'', ''2''],
           attr_variables = [''name'' \<mapsto> ''foo1'']\<rparr>"
  have h1: "fst (aggregate test_csv test_mapping) ''foo1-123'' = Some ?c"
    by (simp add: test_result)
  have raw: "concat (map (\<lambda>v. map (index_map v) (Labels test_mapping))
            (groupRows test_mapping ''foo1-123'' test_csv))
       = [''1'', ''ami-54d2a63b'', ''2'', ''ami-54d2a63b'']"
    by (simp add: test_groups) (simp add: test_mapping_def test_row_def index_map_def)
  from label_dedup [of test_csv test_mapping "''foo1-123''" ?c] h1
  have "attr_labels ?c = firstOccurrences
         (concat (map (\<lambda>v. map (index_map v) (Labels test_mapping))
            (groupRows test_mapping ''foo1-123'' test_csv)))"
    by blast
  with h1 raw show ?thesis by simp
qed

section \<open>Destination normalization\<close>

lemma filter_isDigit_idem: "filter isDigit (filter isDigit s) = filter isDigit s"
  by simp

lemma plus_not_digit: "\<not> isDigit CHR ''+''"
  by (simp add: isDigit_def)

text \<open>
  C8. Normalizing a destination value twice gives the same string as normalizing it once:
  the second pass removes the plus sign, keeps the digits and puts the plus sign back.
\<close>

theorem normalize_idempotent: "normalize (normalize x) = normalize x"
  by (simp add: normalize_def destinationRegexp_ReplaceAllString_def plus_not_digit)

section \<open>The keys of the variables\<close>

text \<open>
  C9. For every key of the result, the keys of the variables of its object are exactly
  the variable fields of the mapping. The group of the key has a last row, and a
  variable field that this row lacks, or has with the empty value, is a variable with
  the empty string as its value.
\<close>

theorem variables_keys:
  assumes "fst (aggregate elements data) k = Some c"
  shows "dom (attr_variables c) = set (Variables data)
       \<and> (\<exists>us u. groupRows data k elements = us @ [u] \<and>
            (\<forall>f \<in> set (Variables data).
               (u f = None \<or> u f = Some []) \<longrightarrow> attr_variables c f = Some []))"
proof -
  from assms obtain u0 us0 where g: "groupRows data k elements = u0 # us0"
    and vars: "attr_variables c =
           (\<lambda>f. if f \<in> set (Variables data)
                then Some (index_map (last (u0 # us0)) f) else None)"
    by (rule aggregate_Some)
  have "dom (attr_variables c) = set (Variables data)"
    unfolding vars by (auto simp: dom_def)
  moreover have "u0 # us0 = butlast (u0 # us0) @ [last (u0 # us0)]"
    by (rule append_butlast_last_id [symmetric]) simp
  then have "groupRows data k elements = butlast (u0 # us0) @ [last (u0 # us0)] \<and>
            (\<forall>f \<in> set (Variables data).
               (last (u0 # us0) f = None \<or> last (u0 # us0) f = Some []) \<longrightarrow>
               attr_variables c f = Some [])"
    unfolding vars g by (auto simp: index_map_def)
  ultimately show ?thesis by blast
qed

text \<open>One row without the field \<open>x\<close> and with an empty \<open>y\<close>, for the variable fields
  \<open>x\<close> and \<open>y\<close>: both are variables of the result, with the empty value.\<close>

theorem variables_keys_witness:
  "fst (aggregate
         [map_of [(''name'', ''ann''), (''y'', [])]]
         \<lparr>NameField = ''name'', CodeField = ''code'', DestinationField = ''phone'',
          Labels = [], Variables = [''x'', ''y''], GroupByFields = []\<rparr>) ''ann''
     = Some \<lparr>attr_name = ''ann'',
             attr_destinations = [\<lparr>code = [], destination = ''+''\<rparr>],
             attr_labels = [], attr_variables = [''x'' \<mapsto> [], ''y'' \<mapsto> []]\<rparr>
   \<and> dom [''x'' \<mapsto> [], ''y'' \<mapsto> ([] :: string)] = {''x'', ''y''}"
proof -
  let ?r = "map_of [(''name'', ''ann''), (''y'', [])] :: row"
  let ?m = "\<lparr>NameField = ''name'', CodeField = ''code'', DestinationField = ''phone'',
          Labels = [], Variables = [''x'', ''y''], GroupByFields = []\<rparr>"
  let ?c = "\<lparr>attr_name = ''ann'',
             attr_destinations = [\<lparr>code = [], destination = ''+''\<rparr>],
             attr_labels = [], attr_variables = [''x'' \<mapsto> [], ''y'' \<mapsto> []]\<rparr>"
  have h1: "fst (aggregate [?r] ?m) ''ann'' = Some ?c"
    by (simp add: aggregate_lookup eval_simps fun_eq_iff)
  from variables_keys [OF h1]
  have "dom (attr_variables ?c) = set (Variables ?m)"
    by blast
  then have "dom [''x'' \<mapsto> [], ''y'' \<mapsto> ([] :: string)] = {''x'', ''y''}"
    by simp
  with h1 show ?thesis by blast
qed

section \<open>Destinations without a digit\<close>

text \<open>
  C10. A row whose destination value has no digit (an empty value and a missing field
  included) gets the destination string \<open>+\<close>: that is the destination of the row, the
  iteration that processes the row appends it to the contact of its key, and every
  object of the result whose group contains such a row has exactly one destination with
  the string \<open>+\<close>.
\<close>

theorem digit_free_destination:
  assumes "\<forall>ch \<in> set (index_map v (DestinationField data)). \<not> isDigit ch"
  shows "rowDestination data v = \<lparr>code = index_map v (CodeField data), destination = ''+''\<rparr>
       \<and> (stripSpaces (index_map v (NameField data)) \<noteq> [] \<longrightarrow>
            (\<exists>c' ds. seen (process data i v st) (rowKey data v) = Some c' \<and>
               destinations c' =
                 ds @ [\<lparr>code = index_map v (CodeField data), destination = ''+''\<rparr>]))
       \<and> (fst (aggregate elements data) k = Some c \<and>
          v \<in> set (groupRows data k elements) \<longrightarrow>
            (\<exists>cd. filter (\<lambda>e. destination e = ''+'') (attr_destinations c)
               = [\<lparr>code = cd, destination = ''+''\<rparr>]))"
proof (intro conjI impI)
  have "filter isDigit (index_map v (DestinationField data)) = []"
    using assms by (simp add: filter_empty_conv)
  then have n: "normalize (index_map v (DestinationField data)) = ''+''"
    by (simp add: normalize_def destinationRegexp_ReplaceAllString_def)
  then show d: "rowDestination data v =
      \<lparr>code = index_map v (CodeField data), destination = ''+''\<rparr>"
    by (simp add: rowDestination_def)
  {
    assume "stripSpaces (index_map v (NameField data)) \<noteq> []"
    then have ns: "\<not> skipped data v" by (simp add: skipped_def)
    show "\<exists>c' ds. seen (process data i v st) (rowKey data v) = Some c' \<and>
               destinations c' =
                 ds @ [\<lparr>code = index_map v (CodeField data), destination = ''+''\<rparr>]"
      by (simp add: process_seen [OF ns] mergeRow_def d)
  }
  {
    assume "fst (aggregate elements data) k = Some c \<and>
          v \<in> set (groupRows data k elements)"
    then have c: "fst (aggregate elements data) k = Some c"
      and v: "v \<in> set (groupRows data k elements)" by simp_all
    from v n obtain u where
      u: "find (\<lambda>u. normalize (index_map u (DestinationField data)) = ''+'')
            (groupRows data k elements) = Some u"
      by (cases "find (\<lambda>u. normalize (index_map u (DestinationField data)) = ''+'')
            (groupRows data k elements)") (auto simp: find_None_iff)
    then have "normalize (index_map u (DestinationField data)) = ''+''"
      by (auto simp: find_Some_iff)
    with aggregate_destination_single [OF c u]
    show "\<exists>cd. filter (\<lambda>e. destination e = ''+'') (attr_destinations c)
               = [\<lparr>code = cd, destination = ''+''\<rparr>]"
      by (simp add: rowDestination_def)
  }
qed

text \<open>A group of two rows, one with the destination value \<open>n/a\<close> and one without
  the destination field: the result has the single destination \<open>+\<close>, with the code of
  the first row.\<close>

theorem digit_free_destination_witness:
  "index_map (map_of [(''name'', ''ann''), (''code'', ''home''), (''phone'', ''n/a'')])
      (DestinationField
        \<lparr>NameField = ''name'', CodeField = ''code'', DestinationField = ''phone'',
         Labels = [], Variables = [], GroupByFields = []\<rparr>) = ''n/a''
   \<and> rowDestination
        \<lparr>NameField = ''name'', CodeField = ''code'', DestinationField = ''phone'',
         Labels = [], Variables = [], GroupByFields = []\<rparr>
        (map_of [(''name'', ''ann''), (''code'', ''home''), (''phone'', ''n/a'')])
       = \<lparr>code = ''home'', destination = ''+''\<rparr>
   \<and> fst (aggregate
         [map_of [(''name'', ''ann''), (''code'', ''home''), (''phone'', ''n/a'')],
          map_of [(''name'', ''ann''), (''code'', ''work'')]]
         \<lparr>NameField = ''name'', CodeField = ''code'', DestinationField = ''phone'',
          Labels = [], Variables = [], GroupByFields = []\<rparr>) ''ann''
       = Some \<lparr>attr_name = ''ann'',
               attr_destinations = [\<lparr>code = ''home'', destination = ''+''\<rparr>],
               attr_labels = [], attr_variables = Map.empty\<rparr>
   \<and> (\<exists>cd. filter (\<lambda>e. destination e = ''+'') [\<lparr>code = ''home'', destination = ''+''\<rparr>]
          = [\<lparr>code = cd, destination = ''+''\<rparr>])"
proof -
  let ?r1 = "map_of [(''name'', ''ann''), (''code'', ''home''), (''phone'', ''n/a'')] :: row"
  let ?r2 = "map_of [(''name'', ''ann''), (''code'', ''work'')] :: row"
  let ?m = "\<lparr>NameField = ''name'', CodeField = ''code'', DestinationField = ''phone'',
          Labels = [], Variables = [], GroupByFields = []\<rparr>"
  let ?c = "\<lparr>attr_name = ''ann'',
               attr_destinations = [\<lparr>code = ''home'', destination = ''+''\<rparr>],
               attr_labels = [], attr_variables = Map.empty\<rparr>"
  let ?st = "\<lparr>seen = Map.empty, warnings = []\<rparr> :: state"
  have raw: "index_map ?r1 (DestinationField ?m) = ''n/a''"
    "index_map ?r1 (CodeField ?m) = ''home''"
    by (simp_all add: index_map_def)
  have h: "\<forall>ch \<in> set (index_map ?r1 (DestinationField ?m)). \<not> isDigit ch"
    unfolding raw by (simp add: isDigit_def)
  have h1: "fst (aggregate [?r1, ?r2] ?m) ''ann'' = Some ?c"
    by (simp add: aggregate_lookup eval_simps fun_eq_iff)
  have h2: "?r1 \<in> set (groupRows ?m ''ann'' [?r1, ?r2])"
    by (simp add: eval_simps)
  note inst = digit_free_destination [OF h, of 0 ?st "[?r1, ?r2]" "''ann''" ?c]
  from inst h1 h2
  have "rowDestination ?m ?r1 =
      \<lparr>code = index_map ?r1 (CodeField ?m), destination = ''+''\<rparr>"
    and "\<exists>cd. filter (\<lambda>e. destination e = ''+'') (attr_destinations ?c)
               = [\<lparr>code = cd, destination = ''+''\<rparr>]"
    by blast+
  then have "rowDestination ?m ?r1 = \<lparr>code = ''home'', destination = ''+''\<rparr>"
    and "\<exists>cd. filter (\<lambda>e. destination e = ''+'') [\<lparr>code = ''home'', destination = ''+''\<rparr>]
               = [\<lparr>code = cd, destination = ''+''\<rparr>]"
    unfolding raw by simp_all
  with raw(1) h1 show ?thesis by blast
qed

end
